theory Spec2Isabelle
  imports Complex_Main
begin

section \<open>The VIX Central contango downloader\<close>

text \<open>
  The program is one function, \<^verbatim>\<open>get_and_save_vix_contago\<close> in
  \<^verbatim>\<open>process_contango.py\<close>, and the script entry that turns its result into an exit
  status. It fetches an HTML table, normalises it with a chain of pandas calls and writes
  the result as a CSV file. The function is embedded step by step: each pandas call of
  the source is one definition below, every exception a call can raise is a value
  \<open>Inl e\<close>, and the network, the file system and standard output are fields of an
  explicit world.

  What lies outside the repository is taken as a parameter, not invented: Python's
  \<^verbatim>\<open>float(str)\<close>, float multiplication, the literal \<^verbatim>\<open>0.01\<close>, \<^verbatim>\<open>np.nan\<close>, the date
  parser behind \<^verbatim>\<open>pd.to_datetime\<close> and the CSV writer behind \<^verbatim>\<open>to_csv\<close>. The
  theorems hold for every choice of them, so in particular for IEEE binary64 floats.
\<close>

subsection \<open>Exceptions\<close>

datatype error = IndexError | KeyError | ValueError | AttributeError | URLError | OSError

text \<open>Sequencing of calls that may raise: the first exception ends the chain.\<close>

fun and_then :: "error + 'a \<Rightarrow> ('a \<Rightarrow> error + 'b) \<Rightarrow> error + 'b" where
  "and_then (Inl e) f = Inl e"
| "and_then (Inr x) f = f x"

fun collect :: "(error + 'a) list \<Rightarrow> error + 'a list" where
  "collect [] = Inr []"
| "collect (Inl e # rs) = Inl e"
| "collect (Inr x # rs) = (case collect rs of Inl e \<Rightarrow> Inl e | Inr xs \<Rightarrow> Inr (x # xs))"

subsection \<open>Data frames\<close>

text \<open>
  A data frame is stored by column, as pandas stores it: the row labels (\<open>index\<close>) and
  the columns in order, each a label with its cells from top to bottom. Column labels
  may repeat. In a data frame every column has as many cells as there are row labels.
\<close>

record ('l, 'i, 'c) frame =
  index :: "'i list"
  columns :: "('l \<times> 'c list) list"

definition len :: "('l, 'i, 'c) frame \<Rightarrow> nat" where
  "len df = length (index df)"

text \<open>
  The table that \<^verbatim>\<open>pd.read_html\<close> returns for a page whose cells are all text: the
  rows are labelled \<open>0, 1, ..., n - 1\<close> and the cells are strings.
\<close>

definition raw_table :: "('l, nat, string) frame \<Rightarrow> bool" where
  "raw_table df \<longleftrightarrow>
     index df = [0 ..< len df] \<and> list_all (\<lambda>(l, xs). length xs = len df) (columns df)"

text \<open>
  A cell of the frame while it is being converted: a column of Python objects holds
  strings and, after \<^verbatim>\<open>replace('-', np.nan)\<close>, floats as well.
\<close>

datatype 'f cell = Text string | Flt 'f

subsection \<open>The library the script calls\<close>

record ('f, 'd) pylib =
  pyfloat :: "string \<Rightarrow> 'f option"    \<comment> \<open>\<^verbatim>\<open>float(s)\<close>; \<open>None\<close> where it raises ValueError\<close>
  fmul :: "'f \<Rightarrow> 'f \<Rightarrow> 'f"              \<comment> \<open>float multiplication\<close>
  f001 :: "'f"                          \<comment> \<open>the literal \<^verbatim>\<open>0.01\<close>\<close>
  fnan :: "'f"                          \<comment> \<open>\<^verbatim>\<open>np.nan\<close>\<close>
  to_date :: "string \<Rightarrow> 'd option"    \<comment> \<open>\<^verbatim>\<open>pd.to_datetime\<close> on one text; \<open>None\<close> where it raises\<close>

subsection \<open>Line 16: the first row becomes the header\<close>

text \<open>\<^verbatim>\<open>df.iloc[0]\<close>: the first cell of every column; IndexError when there is no row.\<close>

fun firsts :: "('l \<times> 'c list) list \<Rightarrow> 'c list option" where
  "firsts [] = Some []"
| "firsts ((l, []) # cs) = None"
| "firsts ((l, x # xs) # cs) = map_option (Cons x) (firsts cs)"

definition iloc0 :: "('l, 'i, 'c) frame \<Rightarrow> error + 'c list" where
  "iloc0 df =
     (if index df = [] then Inl IndexError
      else case firsts (columns df) of None \<Rightarrow> Inl IndexError | Some r \<Rightarrow> Inr r)"

text \<open>\<^verbatim>\<open>df.columns = labels\<close>.\<close>

definition set_columns :: "'m list \<Rightarrow> ('l, 'i, 'c) frame \<Rightarrow> ('m, 'i, 'c) frame" where
  "set_columns ls df = \<lparr>index = index df, columns = zip ls (map snd (columns df))\<rparr>"

subsection \<open>Lines 17 and 18: dropping rows by label\<close>

text \<open>
  \<^verbatim>\<open>df.drop(index=l, inplace=True)\<close> removes every row labelled \<open>l\<close> and raises KeyError
  when there is none.
\<close>

definition drop_index :: "'i \<Rightarrow> ('l, 'i, 'c) frame \<Rightarrow> error + ('l, 'i, 'c) frame" where
  "drop_index l df =
     (if l \<notin> set (index df) then Inl KeyError
      else Inr \<lparr>index = filter (\<lambda>i. i \<noteq> l) (index df),
                columns = map (\<lambda>(c, xs). (c, map snd (filter (\<lambda>(i, x). i \<noteq> l) (zip (index df) xs))))
                              (columns df)\<rparr>)"

subsection \<open>Lines 19 and 20: the date index\<close>

text \<open>\<^verbatim>\<open>df[l]\<close>: the columns labelled \<open>l\<close>, a Series when there is one, a frame when several.\<close>

definition getitem :: "'l \<Rightarrow> ('l, 'i, 'c) frame \<Rightarrow> 'c list list" where
  "getitem l df = map snd (filter (\<lambda>(c, xs). c = l) (columns df))"

text \<open>
  \<^verbatim>\<open>pd.to_datetime(df['Date'])\<close>: KeyError when no column has the label, ValueError when
  several have it (a frame is not a column of dates) or when one cell does not parse.
\<close>

definition to_datetime :: "('f, 'd) pylib \<Rightarrow> string list list \<Rightarrow> error + 'd list" where
  "to_datetime lib sel =
     (case sel of
        [] \<Rightarrow> Inl KeyError
      | [xs] \<Rightarrow> collect (map (\<lambda>s. case to_date lib s of None \<Rightarrow> Inl ValueError | Some d \<Rightarrow> Inr d) xs)
      | _ \<Rightarrow> Inl ValueError)"

text \<open>
  \<^verbatim>\<open>df['Date'] = ...\<close> followed by \<^verbatim>\<open>df.set_index('Date')\<close>: the parsed dates become the
  row labels and the column leaves the frame. The parsed column is handed over directly,
  the frame never shows it in between.
\<close>

definition set_index :: "'l \<Rightarrow> 'd list \<Rightarrow> ('l, 'i, 'c) frame \<Rightarrow> ('l, 'd, 'c) frame" where
  "set_index l ds df = \<lparr>index = ds, columns = filter (\<lambda>(c, xs). c \<noteq> l) (columns df)\<rparr>"

text \<open>
  \<^verbatim>\<open>sort_index()\<close>: rows in ascending order of their label. Rows with equal labels keep
  their relative order here; pandas does not promise which order they take.
\<close>

definition sort_index :: "('l, 'd::linorder, 'c) frame \<Rightarrow> ('l, 'd, 'c) frame" where
  "sort_index df =
     \<lparr>index = sort (index df),
      columns = map (\<lambda>(c, xs). (c, map snd (sort_key fst (zip (index df) xs)))) (columns df)\<rparr>"

text \<open>The cells so far are strings; from here on a column may hold floats too.\<close>

definition objects :: "('l, 'i, string) frame \<Rightarrow> ('l, 'i, 'f cell) frame" where
  "objects df = \<lparr>index = index df, columns = map (\<lambda>(c, xs). (c, map Text xs)) (columns df)\<rparr>"

subsection \<open>Lines 21 to 23: the percentage columns\<close>

text \<open>\<^verbatim>\<open>df[l] = g(df[l])\<close>: KeyError when no column is labelled \<open>l\<close>.\<close>

definition modify ::
  "'l \<Rightarrow> ('c list \<Rightarrow> error + 'c list) \<Rightarrow> ('l, 'i, 'c) frame \<Rightarrow> error + ('l, 'i, 'c) frame" where
  "modify l g df =
     (if getitem l df = [] then Inl KeyError
      else case collect (map (\<lambda>(c, xs). if c = l then map_sum id (Pair c) (g xs) else Inr (c, xs))
                             (columns df)) of
             Inl e \<Rightarrow> Inl e
           | Inr cs \<Rightarrow> Inr \<lparr>index = index df, columns = cs\<rparr>)"

text \<open>
  \<^verbatim>\<open>.str.replace('%', '')\<close> removes every occurrence of the character. Where the cell
  is not a string, the string accessor gives NaN.
\<close>

definition str_replace :: "('f, 'd) pylib \<Rightarrow> char \<Rightarrow> 'f cell \<Rightarrow> 'f cell" where
  "str_replace lib ch c =
     (case c of Text s \<Rightarrow> Text (filter (\<lambda>x. x \<noteq> ch) s) | Flt x \<Rightarrow> Flt (fnan lib))"

text \<open>\<^verbatim>\<open>.astype(float)\<close>: \<^verbatim>\<open>float\<close> of every cell, ValueError at the first text that is no number.\<close>

definition astype_float :: "('f, 'd) pylib \<Rightarrow> 'f cell list \<Rightarrow> error + 'f list" where
  "astype_float lib xs =
     collect (map (\<lambda>c. case c of
                          Text s \<Rightarrow> (case pyfloat lib s of None \<Rightarrow> Inl ValueError | Some x \<Rightarrow> Inr x)
                        | Flt x \<Rightarrow> Inr x) xs)"

definition percent :: "('f, 'd) pylib \<Rightarrow> 'f cell list \<Rightarrow> error + 'f cell list" where
  "percent lib xs =
     and_then (astype_float lib (map (str_replace lib CHR ''%'') xs))
       (\<lambda>ys. Inr (map (\<lambda>y. Flt (fmul lib y (f001 lib))) ys))"

text \<open>
  One of the lines 21 to 23. \<^verbatim>\<open>.str\<close> exists on a Series only: where the label names
  several columns the selection is a frame and the access raises AttributeError.
\<close>

definition percent_column ::
  "('f, 'd) pylib \<Rightarrow> 'l \<Rightarrow> ('l, 'i, 'f cell) frame \<Rightarrow> error + ('l, 'i, 'f cell) frame" where
  "percent_column lib l df =
     (if 1 < length (getitem l df) then Inl AttributeError else modify l (percent lib) df)"

subsection \<open>Lines 24 to 26: every column to float\<close>

definition replace_dash :: "('f, 'd) pylib \<Rightarrow> 'f cell list \<Rightarrow> 'f cell list" where
  "replace_dash lib xs = map (\<lambda>c. if c = Text ''-'' then Flt (fnan lib) else c) xs"

fun clean_columns ::
  "('f, 'd) pylib \<Rightarrow> 'l list \<Rightarrow> ('l, 'i, 'f cell) frame \<Rightarrow> error + ('l, 'i, 'f cell) frame" where
  "clean_columns lib [] df = Inr df"
| "clean_columns lib (c # cs) df =
     and_then (modify c (\<lambda>xs. Inr (replace_dash lib xs)) df)
       (\<lambda>df1. and_then (modify c (\<lambda>xs. map_sum id (map Flt) (astype_float lib xs)) df1)
         (\<lambda>df2. clean_columns lib cs df2))"

subsection \<open>Lines 16 to 26: the normalisation\<close>

definition normalize ::
  "('f, 'd::linorder) pylib \<Rightarrow> ('l, nat, string) frame \<Rightarrow> error + (string, 'd, 'f cell) frame" where
  "normalize lib df0 =
     and_then (iloc0 df0) (\<lambda>header.
     and_then (drop_index 0 (set_columns header df0)) (\<lambda>df1.
     and_then (drop_index (len df1) df1) (\<lambda>df2.
     and_then (to_datetime lib (getitem ''Date'' df2)) (\<lambda>dates.
     and_then (percent_column lib ''Contango 2/1''
                 (objects (sort_index (set_index ''Date'' dates df2)))) (\<lambda>df3.
     and_then (percent_column lib ''Contango 7/4'' df3) (\<lambda>df4.
     and_then (percent_column lib ''Con 7/4 div 3'' df4) (\<lambda>df5.
     clean_columns lib (map fst (columns df5)) df5)))))))"

subsection \<open>The function and the script\<close>

datatype message = Downloading | Saving string | Saved | Fail error

text \<open>
  The world of one run: what \<^verbatim>\<open>pd.read_html(URL)\<close> does (it raises, or returns the
  list of tables of the page), the file system and what has been printed. \<open>to_csv\<close> is
  the CSV writer: given the frame, the path and the file system it returns the file
  system after the call and the exception it raised, if any.
\<close>

record ('l, 'f, 'd, 'fs) world =
  read_html :: "error + ('l, nat, string) frame list"
  to_csv :: "(string, 'd, 'f cell) frame \<Rightarrow> string \<Rightarrow> 'fs \<Rightarrow> 'fs \<times> error option"
  disk :: "'fs"
  stdout :: "message list"

definition print :: "message \<Rightarrow> ('l, 'f, 'd, 'fs) world \<Rightarrow> ('l, 'f, 'd, 'fs) world" where
  "print m w = w\<lparr>stdout := stdout w @ [m]\<rparr>"

definition csv_path :: "string \<Rightarrow> string" where
  "csv_path destination_folder = destination_folder @ ''/vix_contago.csv''"

text \<open>The \<^verbatim>\<open>except Exception\<close> branch: the message is printed and the result is False.\<close>

definition handler ::
  "error \<Rightarrow> ('l, 'f, 'd, 'fs) world \<Rightarrow> bool \<times> ('l, 'f, 'd, 'fs) world" where
  "handler e w = (False, print (Fail e) w)"

definition get_and_save_vix_contago ::
  "('f, 'd::linorder) pylib \<Rightarrow> string \<Rightarrow> ('l, 'f, 'd, 'fs) world \<Rightarrow> bool \<times> ('l, 'f, 'd, 'fs) world" where
  "get_and_save_vix_contago lib destination_folder w =
     (let w1 = print Downloading w in
      case read_html w1 of
        Inl e \<Rightarrow> handler e w1
      | Inr [] \<Rightarrow> handler IndexError w1
      | Inr (df0 # others) \<Rightarrow>
          (case normalize lib df0 of
             Inl e \<Rightarrow> handler e w1
           | Inr df \<Rightarrow>
               (let w2 = print (Saving (csv_path destination_folder)) w1;
                    (fs, raised) = to_csv w2 df (csv_path destination_folder) (disk w2);
                    w3 = w2\<lparr>disk := fs\<rparr>
                in case raised of
                     Some e \<Rightarrow> handler e w3
                   | None \<Rightarrow> (True, print Saved w3))))"

text \<open>
  The script: \<^verbatim>\<open>sys.argv[1]\<close> raises IndexError outside any handler when no folder is
  given, and the interpreter then ends with status 1.
\<close>

definition main ::
  "('f, 'd::linorder) pylib \<Rightarrow> string list \<Rightarrow> ('l, 'f, 'd, 'fs) world \<Rightarrow> int \<times> ('l, 'f, 'd, 'fs) world" where
  "main lib argv w =
     (case argv of
        script # destination_folder # args \<Rightarrow>
          (case get_and_save_vix_contago lib destination_folder w of
             (True, w') \<Rightarrow> (0, w')
           | (False, w') \<Rightarrow> (1, w'))
      | _ \<Rightarrow> (1, w))"

subsection \<open>The table the specification describes\<close>

text \<open>
  The specification speaks of data rows and of one conversion per cell. These are its
  words as definitions; the theorems compare them with the functions above.
  The data rows of a raw column are its cells without the first (the repeated header)
  and the last (the footer).
\<close>

definition data_rows :: "'a list \<Rightarrow> 'a list" where
  "data_rows xs = butlast (tl xs)"

text \<open>
  The columns of a raw table under the names its first row gives them, each with its data
  rows, and the same without the column named \<^verbatim>\<open>Date\<close>.
\<close>

definition named_columns :: "('l, 'i, 'a) frame \<Rightarrow> ('a \<times> 'a list) list" where
  "named_columns df = map (\<lambda>(l, xs). (hd xs, data_rows xs)) (columns df)"

definition value_columns :: "('l, 'i, string) frame \<Rightarrow> (string \<times> string list) list" where
  "value_columns df = filter (\<lambda>(c, xs). c \<noteq> ''Date'') (named_columns df)"

definition percent_names :: "string list" where
  "percent_names = [''Contango 2/1'', ''Contango 7/4'', ''Con 7/4 div 3'']"

text \<open>
  The value of a cell with text \<open>s\<close> in the column named \<open>c\<close>: in a percentage column
  the text without its percent signs, read as a float, times \<^verbatim>\<open>0.01\<close>; in any other
  column NaN for the text \<^verbatim>\<open>-\<close> and the float the text reads as otherwise.
\<close>

definition percent_cell :: "('f, 'd) pylib \<Rightarrow> string \<Rightarrow> 'f cell option" where
  "percent_cell lib s =
     map_option (\<lambda>x. Flt (fmul lib x (f001 lib))) (pyfloat lib (filter (\<lambda>x. x \<noteq> CHR ''%'') s))"

definition plain_cell :: "('f, 'd) pylib \<Rightarrow> string \<Rightarrow> 'f cell option" where
  "plain_cell lib s = (if s = ''-'' then Some (Flt (fnan lib)) else map_option Flt (pyfloat lib s))"

definition convert :: "('f, 'd) pylib \<Rightarrow> string \<Rightarrow> string \<Rightarrow> 'f cell option" where
  "convert lib c s = (if c \<in> set percent_names then percent_cell lib s else plain_cell lib s)"

text \<open>
  How far the conversion of a column has come: \<open>P\<close> holds the percentage columns that
  lines 21 to 23 have converted, \<open>L\<close> the labels the loop of lines 24 to 26 has visited. A
  column is related to the strings it started from.
\<close>

definition stage ::
  "('f, 'd) pylib \<Rightarrow> string set \<Rightarrow> string set \<Rightarrow>
   string \<times> string list \<Rightarrow> string \<times> 'f cell list \<Rightarrow> bool" where
  "stage lib P L = (\<lambda>(c, xs) (c', ys). c' = c \<and>
     (if c \<in> L then list_all2 (\<lambda>s y. convert lib c s = Some y) xs ys
      else if c \<in> P then list_all2 (\<lambda>s y. percent_cell lib s = Some y) xs ys
      else ys = map Text xs))"

subsection \<open>An instance for running the model\<close>

text \<open>
  To evaluate the functions on concrete tables the library parameters are instantiated:
  floats are exact decimal fractions with one extra value for NaN, \<^verbatim>\<open>float\<close> reads an
  optional sign, digits and an optional fraction, and a date is read from the form
  \<^verbatim>\<open>YYYY-MM-DD\<close> as the number \<open>yyyymmdd\<close>. Both readers accept a subset of what
  Python accepts, with Python's value there, and reject \<^verbatim>\<open>'-'\<close> as Python does.
\<close>

datatype dec = Dec rat | NaN

fun dec_mul :: "dec \<Rightarrow> dec \<Rightarrow> dec" where
  "dec_mul (Dec a) (Dec b) = Dec (a * b)"
| "dec_mul _ _ = NaN"

definition digit :: "char \<Rightarrow> nat option" where
  "digit c = (let n = (of_char c :: nat) in if 48 \<le> n \<and> n \<le> 57 then Some (n - 48) else None)"

fun digits :: "nat \<Rightarrow> string \<Rightarrow> nat option" where
  "digits acc [] = Some acc"
| "digits acc (c # cs) = (case digit c of None \<Rightarrow> None | Some d \<Rightarrow> digits (10 * acc + d) cs)"

definition decimal :: "string \<Rightarrow> rat option" where
  "decimal s =
     (let ip = takeWhile (\<lambda>c. c \<noteq> CHR ''.'') s;
          fp = (case dropWhile (\<lambda>c. c \<noteq> CHR ''.'') s of [] \<Rightarrow> [] | dot # t \<Rightarrow> t)
      in if ip = [] \<and> fp = [] then None
         else case (digits 0 ip, digits 0 fp) of
                (Some a, Some b) \<Rightarrow> Some (of_nat a + of_nat b / 10 ^ length fp)
              | _ \<Rightarrow> None)"

definition dec_float :: "string \<Rightarrow> dec option" where
  "dec_float s =
     (case s of
        [] \<Rightarrow> None
      | c # t \<Rightarrow> if c = CHR ''-'' then map_option (\<lambda>q. Dec (- q)) (decimal t)
                 else if c = CHR ''+'' then map_option Dec (decimal t)
                 else map_option Dec (decimal s))"

definition iso_date :: "string \<Rightarrow> nat option" where
  "iso_date s =
     (if length s = 10 \<and> s ! 4 = CHR ''-'' \<and> s ! 7 = CHR ''-'' then
        case (digits 0 (take 4 s), digits 0 (take 2 (drop 5 s)), digits 0 (drop 8 s)) of
          (Some y, Some m, Some d) \<Rightarrow>
            if 1 \<le> m \<and> m \<le> 12 \<and> 1 \<le> d \<and> d \<le> 31 then Some (y * 10000 + m * 100 + d) else None
        | _ \<Rightarrow> None
      else None)"

definition dec_lib :: "(dec, nat) pylib" where
  "dec_lib = \<lparr>pyfloat = dec_float, fmul = dec_mul, f001 = Dec (1 / 100), fnan = NaN,
              to_date = iso_date\<rparr>"

text \<open>
  A page with two trading days between the repeated header and the footer, the later
  day first.
\<close>

definition page :: "(nat, nat, string) frame" where
  "page = \<lparr>index = [0, 1, 2, 3],
           columns =
             [(0, [''Date'', ''2020-01-02'', ''2020-01-01'', ''Total'']),
              (1, [''F1'', ''14.5'', ''-'', ''x'']),
              (2, [''Contango 2/1'', ''10%'', ''1%2%'', ''y'']),
              (3, [''Contango 7/4'', ''20%'', ''-5.5%'', '''']),
              (4, [''Con 7/4 div 3'', ''30%'', ''0.5%'', ''''])]\<rparr>"

definition page_out :: "(string, nat, dec cell) frame" where
  "page_out = \<lparr>index = [20200101, 20200102],
               columns =
                 [(''F1'', [Flt NaN, Flt (Dec (29 / 2))]),
                  (''Contango 2/1'', [Flt (Dec (3 / 25)), Flt (Dec (1 / 10))]),
                  (''Contango 7/4'', [Flt (Dec (- (11 / 200))), Flt (Dec (1 / 5))]),
                  (''Con 7/4 div 3'', [Flt (Dec (1 / 200)), Flt (Dec (3 / 10))])]\<rparr>"

text \<open>The same page with both trading days under one date.\<close>

definition page_twice :: "(nat, nat, string) frame" where
  "page_twice = \<lparr>index = [0, 1, 2, 3],
           columns =
             [(0, [''Date'', ''2020-01-02'', ''2020-01-02'', ''Total'']),
              (1, [''F1'', ''14.5'', ''-'', ''x'']),
              (2, [''Contango 2/1'', ''10%'', ''1%2%'', ''y'']),
              (3, [''Contango 7/4'', ''20%'', ''-5.5%'', '''']),
              (4, [''Con 7/4 div 3'', ''30%'', ''0.5%'', ''''])]\<rparr>"

definition page_twice_out :: "(string, nat, dec cell) frame" where
  "page_twice_out = \<lparr>index = [20200102, 20200102],
               columns =
                 [(''F1'', [Flt (Dec (29 / 2)), Flt NaN]),
                  (''Contango 2/1'', [Flt (Dec (1 / 10)), Flt (Dec (3 / 25))]),
                  (''Contango 7/4'', [Flt (Dec (1 / 5)), Flt (Dec (- (11 / 200)))]),
                  (''Con 7/4 div 3'', [Flt (Dec (3 / 10)), Flt (Dec (1 / 200))])]\<rparr>"

text \<open>The page with \<^verbatim>\<open>-\<close> in a percentage column, where \<open>page\<close> has \<^verbatim>\<open>10%\<close>.\<close>

definition page_dash :: "(nat, nat, string) frame" where
  "page_dash = \<lparr>index = [0, 1, 2, 3],
           columns =
             [(0, [''Date'', ''2020-01-02'', ''2020-01-01'', ''Total'']),
              (1, [''F1'', ''14.5'', ''-'', ''x'']),
              (2, [''Contango 2/1'', ''-'', ''1%2%'', ''y'']),
              (3, [''Contango 7/4'', ''20%'', ''-5.5%'', '''']),
              (4, [''Con 7/4 div 3'', ''30%'', ''0.5%'', ''''])]\<rparr>"

text \<open>A page whose first trading day carries a text that is no date.\<close>

definition page_bad_date :: "(nat, nat, string) frame" where
  "page_bad_date = \<lparr>index = [0, 1, 2, 3],
           columns =
             [(0, [''Date'', ''not a date'', ''2020-01-01'', ''Total'']),
              (1, [''F1'', ''14.5'', ''-'', ''x'']),
              (2, [''Contango 2/1'', ''10%'', ''1%2%'', ''y'']),
              (3, [''Contango 7/4'', ''20%'', ''-5.5%'', '''']),
              (4, [''Con 7/4 div 3'', ''30%'', ''0.5%'', ''''])]\<rparr>"

text \<open>
  A world to run the function in: the site answers with \<open>page\<close>, the file system maps
  a path to the table written there, and the writer stores the table and does not fail.
  A second writer fails and leaves the file system as it is.
\<close>

type_synonym files = "string \<Rightarrow> (string, nat, dec cell) frame option"

definition store :: "(string, nat, dec cell) frame \<Rightarrow> string \<Rightarrow> files \<Rightarrow> files \<times> error option" where
  "store df path fs = (fs(path \<mapsto> df), None)"

definition refuse :: "(string, nat, dec cell) frame \<Rightarrow> string \<Rightarrow> files \<Rightarrow> files \<times> error option" where
  "refuse df path fs = (fs, Some OSError)"

definition online :: "(nat, dec, nat, files) world" where
  "online = \<lparr>read_html = Inr [page], to_csv = store, disk = Map.empty, stdout = []\<rparr>"

lemmas frame_defs = normalize_def iloc0_def set_columns_def drop_index_def len_def getitem_def
  to_datetime_def set_index_def sort_index_def objects_def modify_def str_replace_def
  astype_float_def percent_def percent_column_def replace_dash_def

lemmas dec_defs = dec_lib_def dec_float_def decimal_def digit_def iso_date_def

section \<open>Properties\<close>

subsection \<open>Exceptions and lists\<close>

lemma and_then_Inr: "and_then m f = Inr y \<longleftrightarrow> (\<exists>x. m = Inr x \<and> f x = Inr y)"
  by (cases m) auto

lemma collect_map_Inr:
  "collect (map f xs) = Inr ys \<longleftrightarrow> list_all2 (\<lambda>x y. f x = Inr y) xs ys"
proof (induction xs arbitrary: ys)
  case Nil
  show ?case by auto
next
  case (Cons a xs)
  show ?case
    by (cases "f a"; cases "collect (map f xs)")
       (auto simp: list_all2_Cons1 Cons.IH[symmetric])
qed

lemma firsts_nonempty:
  "list_all (\<lambda>(l, xs). xs \<noteq> []) cs \<Longrightarrow> firsts cs = Some (map (\<lambda>(l, xs). hd xs) cs)"
proof (induction cs)
  case Nil
  show ?case by simp
next
  case (Cons a cs)
  obtain l xs where a: "a = (l, xs)" by (cases a)
  with Cons.prems obtain x xs' where xs: "xs = x # xs'" by (cases xs) auto
  from Cons a xs show ?case by simp
qed

lemma zip_heads:
  "zip (map (\<lambda>(l, xs). hd xs) cs) (map snd cs) = map (\<lambda>(l, xs). (hd xs, xs)) cs"
  by (induction cs) auto

lemma drop_first:
  "length xs = n \<Longrightarrow> map snd (filter (\<lambda>(i, x). i \<noteq> 0) (zip [0..<n] xs)) = tl xs"
proof (cases xs)
  case Nil
  then show ?thesis by simp
next
  case (Cons x xs')
  assume "length xs = n"
  with Cons have n: "n = Suc (length xs')" by simp
  have "filter (\<lambda>(i, x). i \<noteq> 0) (zip [Suc 0..<Suc (length xs')] xs')
        = zip [Suc 0..<Suc (length xs')] xs'"
    by (rule filter_True) (auto simp del: upt_Suc dest!: set_zip_leftD)
  with Cons n show ?thesis by (simp add: upt_conv_Cons del: upt_Suc)
qed

lemma drop_last:
  "length ys = m \<Longrightarrow> 0 < m \<Longrightarrow>
   map snd (filter (\<lambda>(i, x). i \<noteq> a + m - 1) (zip [a..<a + m] ys)) = butlast ys"
proof -
  assume len: "length ys = m" and m: "0 < m"
  then obtain zs z where ys: "ys = zs @ [z]" by (cases ys rule: rev_cases) auto
  with len have m': "m = Suc (length zs)" by simp
  have up: "[a..<a + m] = [a..<a + length zs] @ [a + length zs]" by (simp add: m')
  have keep: "filter (\<lambda>(i, x). i \<noteq> a + length zs) (zip [a..<a + length zs] zs)
        = zip [a..<a + length zs] zs"
    by (rule filter_True) (auto dest: set_zip_leftD)
  show ?thesis unfolding up ys by (simp add: m' keep)
qed

lemma filter_upt_first: "filter (\<lambda>i. i \<noteq> 0) [0..<n] = [Suc 0..<n]"
proof (cases n)
  case 0
  then show ?thesis by simp
next
  case (Suc k)
  have "filter (\<lambda>i. i \<noteq> 0) [Suc 0..<Suc k] = [Suc 0..<Suc k]" by (rule filter_True) auto
  with Suc show ?thesis by (simp add: upt_conv_Cons del: upt_Suc)
qed

lemma filter_upt_last: "a \<le> b \<Longrightarrow> filter (\<lambda>i. i \<noteq> b) [a..<Suc b] = [a..<b]"
proof -
  assume "a \<le> b"
  moreover have "filter (\<lambda>i. i \<noteq> b) [a..<b] = [a..<b]" by (rule filter_True) auto
  ultimately show ?thesis by simp
qed

subsection \<open>Lines 16 to 18 on a raw table\<close>

lemma iloc0_raw:
  assumes "raw_table df" "0 < len df"
  shows "iloc0 df = Inr (map (\<lambda>(l, xs). hd xs) (columns df))"
proof -
  from assms have "list_all (\<lambda>(l, xs). xs \<noteq> []) (columns df)"
    by (auto simp: raw_table_def list_all_iff)
  from firsts_nonempty [OF this] assms(2) show ?thesis
    by (simp add: iloc0_def len_def)
qed

lemma set_columns_raw:
  "set_columns (map (\<lambda>(l, xs). hd xs) (columns df)) df =
     \<lparr>index = index df, columns = map (\<lambda>(l, xs). (hd xs, xs)) (columns df)\<rparr>"
  by (simp add: set_columns_def zip_heads)

lemma drop_index_first:
  assumes "list_all (\<lambda>(l, xs). length xs = n) cs" "0 < n"
  shows "drop_index 0 \<lparr>index = [0..<n], columns = map (\<lambda>(l, xs). (hd xs, xs)) cs\<rparr> =
         Inr \<lparr>index = [Suc 0..<n], columns = map (\<lambda>(l, xs). (hd xs, tl xs)) cs\<rparr>"
proof -
  have "map ((\<lambda>(c, xs). (c, map snd (filter (\<lambda>(i, x). i \<noteq> 0) (zip [0..<n] xs)))) \<circ>
             (\<lambda>(l, xs). (hd xs, xs))) cs = map (\<lambda>(l, xs). (hd xs, tl xs)) cs"
  proof (rule map_cong [OF refl])
    fix c assume "c \<in> set cs"
    with assms(1) obtain l xs where c: "c = (l, xs)" and "length xs = n"
      by (cases c) (auto simp: list_all_iff)
    from drop_first [OF this(2)] show
      "((\<lambda>(c, xs). (c, map snd (filter (\<lambda>(i, x). i \<noteq> 0) (zip [0..<n] xs)))) \<circ>
             (\<lambda>(l, xs). (hd xs, xs))) c = (\<lambda>(l, xs). (hd xs, tl xs)) c"
      by (simp add: c)
  qed
  with assms(2) filter_upt_first [of n] show ?thesis
    by (simp add: drop_index_def)
qed

lemma drop_index_last:
  assumes "list_all (\<lambda>(l, xs). length xs = n) cs" "2 \<le> n"
  shows "drop_index (n - 1) \<lparr>index = [Suc 0..<n], columns = map (\<lambda>(l, xs). (hd xs, tl xs)) cs\<rparr> =
         Inr \<lparr>index = [Suc 0..<n - 1], columns = map (\<lambda>(l, xs). (hd xs, data_rows xs)) cs\<rparr>"
proof -
  obtain k where n: "n = Suc (Suc k)" using assms(2) by (cases n; cases "n - 1") auto
  have "map ((\<lambda>(c, xs). (c, map snd (filter (\<lambda>(i, x). i \<noteq> Suc k) (zip [Suc 0..<Suc (Suc k)] xs)))) \<circ>
             (\<lambda>(l, xs). (hd xs, tl xs))) cs = map (\<lambda>(l, xs). (hd xs, data_rows xs)) cs"
  proof (rule map_cong [OF refl])
    fix c assume "c \<in> set cs"
    with assms(1) obtain l xs where c: "c = (l, xs)" and "length xs = Suc (Suc k)"
      by (cases c) (auto simp: list_all_iff n)
    then have "length (tl xs) = Suc k" "0 < Suc k" by simp_all
    from drop_last [OF this, of "Suc 0"] show
      "((\<lambda>(c, xs). (c, map snd (filter (\<lambda>(i, x). i \<noteq> Suc k) (zip [Suc 0..<Suc (Suc k)] xs)))) \<circ>
             (\<lambda>(l, xs). (hd xs, tl xs))) c = (\<lambda>(l, xs). (hd xs, data_rows xs)) c"
      by (simp add: c data_rows_def del: upt_Suc)
  qed
  moreover have "filter (\<lambda>i. i \<noteq> Suc k) [Suc 0..<Suc (Suc k)] = [Suc 0..<Suc k]"
    by (rule filter_upt_last) simp
  ultimately show ?thesis
    by (simp add: drop_index_def n del: upt_Suc)
qed

lemma drop_index_last_short:
  "drop_index 0 \<lparr>index = [Suc 0..<Suc 0], columns = cs\<rparr> = Inl KeyError"
  by (simp add: drop_index_def)

text \<open>The frame after lines 16 to 18, and when they succeed.\<close>

lemma trim_raw:
  assumes "raw_table df0" "2 \<le> len df0"
  shows "and_then (iloc0 df0) (\<lambda>header.
           and_then (drop_index 0 (set_columns header df0)) (\<lambda>df1.
           and_then (drop_index (len df1) df1) k)) =
         k \<lparr>index = [Suc 0..<len df0 - 1],
            columns = map (\<lambda>(l, xs). (hd xs, data_rows xs)) (columns df0)\<rparr>"
proof -
  let ?n = "len df0"
  from assms have cs: "list_all (\<lambda>(l, xs). length xs = ?n) (columns df0)"
    and idx: "index df0 = [0..<?n]" and pos: "0 < ?n"
    by (auto simp: raw_table_def)
  have l1: "len \<lparr>index = [Suc 0..<?n], columns = map (\<lambda>(l, xs). (hd xs, tl xs)) (columns df0)\<rparr>
            = ?n - 1"
    by (simp add: len_def)
  show ?thesis
    using drop_index_last [OF cs assms(2)]
    by (simp add: iloc0_raw [OF assms(1) pos] set_columns_raw idx
          drop_index_first [OF cs pos] l1)
qed

lemma trim_short:
  assumes "raw_table df0" "len df0 < 2"
  shows "\<exists>e. and_then (iloc0 df0) (\<lambda>header.
           and_then (drop_index 0 (set_columns header df0)) (\<lambda>df1.
           and_then (drop_index (len df1) df1) k)) = Inl e"
proof (cases "len df0 = 0")
  case True
  then show ?thesis by (simp add: iloc0_def len_def)
next
  case False
  with assms(2) have one: "len df0 = Suc 0" by simp
  from assms(1) one have cs: "list_all (\<lambda>(l, xs). length xs = Suc 0) (columns df0)"
    and idx: "index df0 = [0..<Suc 0]"
    by (auto simp: raw_table_def)
  have pos: "0 < len df0" using one by simp
  show ?thesis
    using idx iloc0_raw [OF assms(1) pos]
    by (simp add: set_columns_raw drop_index_def len_def)
qed

subsection \<open>Lines 19 and 20\<close>

lemma map_insort_key: "map f (insort_key f x xs) = insort (f x) (map f xs)"
  by (induction xs) auto

lemma map_sort_key: "map f (sort_key f xs) = sort (map f xs)"
  by (induction xs) (auto simp: map_insort_key)

lemma to_datetime_Inr:
  "to_datetime lib sel = Inr ds \<longleftrightarrow>
     (\<exists>xs. sel = [xs] \<and> list_all2 (\<lambda>s d. to_date lib s = Some d) xs ds)"
proof -
  have cell: "((case to_date lib s of None \<Rightarrow> Inl ValueError | Some d \<Rightarrow> Inr d) = Inr d') =
              (to_date lib s = Some d')" for s d'
    by (cases "to_date lib s") auto
  show ?thesis
  proof (cases sel)
    case Nil
    then show ?thesis by (simp add: to_datetime_def)
  next
    case (Cons xs rest)
    then show ?thesis
      by (cases rest) (simp_all add: to_datetime_def collect_map_Inr cell)
  qed
qed

text \<open>A sorted frame pairs every label with the cell it came with.\<close>

lemma zip_sorted:
  assumes "length ds = length xs"
  shows "zip (sort ds) (map snd (sort_key fst (zip ds xs))) = sort_key fst (zip ds xs)"
proof -
  have "sort ds = map fst (sort_key fst (zip ds xs))"
    using assms by (simp add: map_sort_key)
  then show ?thesis by (simp add: zip_map_fst_snd)
qed

lemma in_zip_sorted:
  assumes "length ds = length xs" "k < length xs"
  shows "(ds ! k, xs ! k) \<in> set (zip (sort ds) (map snd (sort_key fst (zip ds xs))))"
proof -
  have "(ds ! k, xs ! k) \<in> set (zip ds xs)"
    using assms by (auto simp: set_zip)
  then show ?thesis by (simp add: zip_sorted [OF assms(1)])
qed

lemma in_zip_related:
  assumes "(d, s) \<in> set (zip ds xs)" "list_all2 P xs ys"
  shows "\<exists>y. (d, y) \<in> set (zip ds ys) \<and> P s y"
proof -
  from assms(1) obtain i where i: "i < length ds" "i < length xs" "ds ! i = d" "xs ! i = s"
    by (auto simp: set_zip)
  from assms(2) i have "P s (ys ! i)" "i < length ys"
    by (auto simp: list_all2_conv_all_nth)
  with i show ?thesis by (auto simp: set_zip)
qed

subsection \<open>Lines 21 to 26, column by column\<close>

lemma map_sum_Inr: "map_sum id g r = Inr y \<longleftrightarrow> (\<exists>x. r = Inr x \<and> y = g x)"
  by (cases r) auto

lemma modify_Inr:
  assumes "modify l g df = Inr df'"
  shows "index df' = index df"
    and "list_all2 (\<lambda>(c, xs) (c', ys). c' = c \<and> (if c = l then g xs = Inr ys else ys = xs))
           (columns df) (columns df')"
proof -
  let ?f = "\<lambda>(c, xs). if c = l then map_sum id (Pair c) (g xs) else Inr (c, xs)"
  from assms obtain cs where cs: "collect (map ?f (columns df)) = Inr cs"
    and df': "df' = \<lparr>index = index df, columns = cs\<rparr>"
    by (auto simp: modify_def split: if_splits sum.splits)
  from df' show "index df' = index df" by simp
  from cs have "list_all2 (\<lambda>x y. ?f x = Inr y) (columns df) cs"
    by (simp add: collect_map_Inr)
  then have "list_all2 (\<lambda>(c, xs) (c', ys). c' = c \<and> (if c = l then g xs = Inr ys else ys = xs))
               (columns df) cs"
    by (rule list_all2_mono) (auto simp: map_sum_Inr split: if_splits)
  with df' show "list_all2 (\<lambda>(c, xs) (c', ys). c' = c \<and> (if c = l then g xs = Inr ys else ys = xs))
           (columns df) (columns df')"
    by simp
qed

lemma astype_float_Inr:
  "astype_float lib xs = Inr fs \<longleftrightarrow>
     list_all2 (\<lambda>c f. case c of Text s \<Rightarrow> pyfloat lib s = Some f | Flt x \<Rightarrow> f = x) xs fs"
proof -
  have cell: "((case c of Text s \<Rightarrow> (case pyfloat lib s of None \<Rightarrow> Inl ValueError | Some x \<Rightarrow> Inr x)
                     | Flt x \<Rightarrow> Inr x) = Inr f) =
              (case c of Text s \<Rightarrow> pyfloat lib s = Some f | Flt x \<Rightarrow> f = x)" for c f
    by (cases c) (auto split: option.splits)
  show ?thesis by (simp add: astype_float_def collect_map_Inr cell)
qed

lemma percent_Inr:
  assumes "percent lib (map Text xs) = Inr ys"
  shows "list_all2 (\<lambda>s y. percent_cell lib s = Some y) xs ys"
proof -
  from assms obtain fs where
    fs: "astype_float lib (map (str_replace lib CHR ''%'') (map Text xs)) = Inr fs"
    and ys: "ys = map (\<lambda>y. Flt (fmul lib y (f001 lib))) fs"
    by (auto simp: percent_def and_then_Inr)
  from fs have "list_all2 (\<lambda>s f. pyfloat lib (filter (\<lambda>x. x \<noteq> CHR ''%'') s) = Some f) xs fs"
    by (simp add: astype_float_Inr list_all2_map1 str_replace_def)
  then show ?thesis
    unfolding ys list_all2_map2
    by (rule list_all2_mono) (simp add: percent_cell_def)
qed

lemma floats_unchanged:
  assumes "\<forall>y \<in> set ys. \<exists>f. y = Flt f"
    and "map_sum id (map Flt) (astype_float lib (replace_dash lib ys)) = Inr zs"
  shows "zs = ys"
proof -
  have same: "replace_dash lib ys = ys"
    unfolding replace_dash_def by (rule map_idI) (use assms(1) in auto)
  from assms(2) obtain fs where fs: "astype_float lib ys = Inr fs" and zs: "zs = map Flt fs"
    by (auto simp: map_sum_Inr same)
  from fs have "list_all2 (\<lambda>c f. case c of Text s \<Rightarrow> pyfloat lib s = Some f | Flt x \<Rightarrow> f = x) ys fs"
    by (simp add: astype_float_Inr)
  then have "list_all2 (\<lambda>c f. c = Flt f) ys fs"
    by (rule list.rel_mono_strong) (use assms(1) in auto)
  then have "ys = map Flt fs"
    by (auto simp: list_all2_conv_all_nth intro: nth_equalityI)
  with zs show ?thesis by simp
qed

lemma texts_converted:
  assumes "map_sum id (map Flt) (astype_float lib (replace_dash lib (map Text xs))) = Inr zs"
  shows "list_all2 (\<lambda>s z. plain_cell lib s = Some z) xs zs"
proof -
  from assms obtain fs where fs: "astype_float lib (replace_dash lib (map Text xs)) = Inr fs"
    and zs: "zs = map Flt fs"
    by (auto simp: map_sum_Inr)
  from fs have "list_all2 (\<lambda>s f. case (if s = ''-'' then Flt (fnan lib) else Text s) of
                     Text s \<Rightarrow> pyfloat lib s = Some f | Flt x \<Rightarrow> f = x) xs fs"
    by (simp add: astype_float_Inr replace_dash_def list_all2_map1)
  then show ?thesis
    unfolding zs list_all2_map2
    by (rule list_all2_mono) (auto simp: plain_cell_def split: if_splits)
qed

subsection \<open>Lines 21 to 26, the whole frame\<close>

lemma stage_objects: "list_all2 (stage lib {} {}) cs (map (\<lambda>(c, xs). (c, map Text xs)) cs)"
  by (simp add: list_all2_map2 list_all2_same stage_def split: prod.splits)

lemma percent_cell_Flt: "percent_cell lib s = Some y \<Longrightarrow> \<exists>f. y = Flt f"
  by (auto simp: percent_cell_def)

lemma convert_Flt: "convert lib c s = Some y \<Longrightarrow> \<exists>f. y = Flt f"
  by (auto simp: convert_def percent_cell_def plain_cell_def split: if_splits)

lemma all_Flt:
  assumes "list_all2 (\<lambda>s y. \<exists>f. y = Flt f) xs ys"
  shows "\<forall>y \<in> set ys. \<exists>f. y = Flt f"
  using assms by (auto simp: list_all2_conv_all_nth in_set_conv_nth)

lemma stage_percent:
  fixes lib :: "('f, 'd) pylib"
  assumes "percent_column lib l df = Inr df'"
    and "list_all2 (stage lib P {}) cs (columns df)" and "l \<notin> P"
  shows "list_all2 (stage lib (insert l P) {}) cs (columns df')" and "index df' = index df"
proof -
  from assms(1) have m: "modify l (percent lib) df = Inr df'"
    by (simp add: percent_column_def split: if_splits)
  from modify_Inr(1) [OF m] show "index df' = index df" .
  show "list_all2 (stage lib (insert l P) {}) cs (columns df')"
  proof (rule list_all2_trans [OF _ assms(2) modify_Inr(2) [OF m]])
    fix a :: "string \<times> string list" and b c :: "string \<times> 'f cell list"
    assume ab: "stage lib P {} a b"
      and bc: "(\<lambda>(c, xs) (c', ys). c' = c \<and> (if c = l then percent lib xs = Inr ys else ys = xs)) b c"
    obtain n xs where a: "a = (n, xs)" by (cases a)
    obtain n' ys where b: "b = (n', ys)" by (cases b)
    obtain n'' zs where c: "c = (n'', zs)" by (cases c)
    show "stage lib (insert l P) {} a c"
    proof (cases "n = l")
      case True
      with ab assms(3) have "ys = map Text xs" "n' = n" by (auto simp: stage_def a b)
      with bc True have "percent lib (map Text xs) = Inr zs" "n'' = n" by (auto simp: b c)
      with percent_Inr [of lib xs zs] True show ?thesis by (simp add: stage_def a c)
    next
      case False
      with ab bc show ?thesis by (auto simp: stage_def a b c)
    qed
  qed
qed

lemma stage_clean_step:
  fixes lib :: "('f, 'd) pylib"
  assumes m1: "modify l (\<lambda>xs. Inr (replace_dash lib xs)) df = Inr df1"
    and m2: "modify l (\<lambda>xs. map_sum id (map Flt) (astype_float lib xs)) df1 = Inr df2"
    and st: "list_all2 (stage lib (set percent_names) L) cs (columns df)"
  shows "list_all2 (stage lib (set percent_names) (insert l L)) cs (columns df2)"
    and "index df2 = index df"
proof -
  from modify_Inr(1) [OF m1] modify_Inr(1) [OF m2] show "index df2 = index df" by simp
  let ?M1 = "\<lambda>(c, xs) (c', ys). c' = c \<and>
               (if c = l then Inr (replace_dash lib xs) = Inr ys else ys = xs)"
  let ?M2 = "\<lambda>(c, xs) (c', ys). c' = c \<and>
               (if c = l then map_sum id (map Flt) (astype_float lib xs) = Inr ys else ys = xs)"
  let ?M = "\<lambda>(c, xs) (c', ys). c' = c \<and>
               (if c = l then map_sum id (map Flt) (astype_float lib (replace_dash lib xs)) = Inr ys
                else ys = (xs :: 'f cell list))"
  have "list_all2 ?M (columns df) (columns df2)"
    by (rule list_all2_trans [OF _ modify_Inr(2) [OF m1] modify_Inr(2) [OF m2]])
       (auto split: if_splits)
  with st show "list_all2 (stage lib (set percent_names) (insert l L)) cs (columns df2)"
  proof (rule list_all2_trans [rotated])
    fix a :: "string \<times> string list" and b c :: "string \<times> 'f cell list"
    assume ab: "stage lib (set percent_names) L a b" and bc: "?M b c"
    obtain n xs where a: "a = (n, xs)" by (cases a)
    obtain n' ys where b: "b = (n', ys)" by (cases b)
    obtain n'' zs where c: "c = (n'', zs)" by (cases c)
    from ab bc have names: "n' = n" "n'' = n" by (auto simp: stage_def a b c)
    show "stage lib (set percent_names) (insert l L) a c"
    proof (cases "n = l")
      case False
      with ab bc show ?thesis by (auto simp: stage_def a b c)
    next
      case True
      with bc names have fin: "map_sum id (map Flt) (astype_float lib (replace_dash lib ys)) = Inr zs"
        by (simp add: b c)
      consider (visited) "n \<in> L" | (pct) "n \<notin> L" "n \<in> set percent_names"
        | (plain) "n \<notin> L" "n \<notin> set percent_names" by blast
      then show ?thesis
      proof cases
        case visited
        with ab have conv: "list_all2 (\<lambda>s y. convert lib n s = Some y) xs ys"
          by (simp add: stage_def a b)
        then have "list_all2 (\<lambda>s y. \<exists>f. y = Flt f) xs ys"
          by (rule list_all2_mono) (rule convert_Flt)
        from floats_unchanged [OF all_Flt [OF this] fin] conv True names
        show ?thesis by (simp add: stage_def a c)
      next
        case pct
        with ab have conv: "list_all2 (\<lambda>s y. percent_cell lib s = Some y) xs ys"
          by (simp add: stage_def a b)
        then have "list_all2 (\<lambda>s y. \<exists>f. y = Flt f) xs ys"
          by (rule list_all2_mono) (rule percent_cell_Flt)
        from floats_unchanged [OF all_Flt [OF this] fin] conv True names pct
        show ?thesis by (simp add: stage_def a c convert_def)
      next
        case plain
        with ab have "ys = map Text xs" by (simp add: stage_def a b)
        with fin have "list_all2 (\<lambda>s z. plain_cell lib s = Some z) xs zs"
          by (simp add: texts_converted)
        with True names plain show ?thesis by (simp add: stage_def a c convert_def)
      qed
    qed
  qed
qed

lemma stage_clean:
  fixes lib :: "('f, 'd) pylib"
  assumes "clean_columns lib ls df = Inr df'"
    and "list_all2 (stage lib (set percent_names) L) cs (columns df)"
  shows "list_all2 (stage lib (set percent_names) (L \<union> set ls)) cs (columns df') \<and>
         index df' = index df"
  using assms
proof (induction ls arbitrary: df L)
  case Nil
  then show ?case by simp
next
  case (Cons l ls)
  from Cons.prems(1) obtain df1 df2 where
    m1: "modify l (\<lambda>xs. Inr (replace_dash lib xs)) df = Inr df1"
    and m2: "modify l (\<lambda>xs. map_sum id (map Flt) (astype_float lib xs)) df1 = Inr df2"
    and rest: "clean_columns lib ls df2 = Inr df'"
    by (auto simp: and_then_Inr)
  from Cons.IH [OF rest stage_clean_step(1) [OF m1 m2 Cons.prems(2)]]
    stage_clean_step(2) [OF m1 m2 Cons.prems(2)]
  show ?case by simp
qed

subsection \<open>The normalised table\<close>

lemma stage_names: "list_all2 (stage lib P L) cs cs' \<Longrightarrow> map fst cs' = map fst cs"
  by (induction cs cs' rule: list_all2_induct) (auto simp: stage_def)

lemma stage_all_visited:
  assumes "list_all2 (stage lib P L) cs cs'" "set (map fst cs) \<subseteq> L"
  shows "list_all2 (\<lambda>(c, xs) (c', ys). c' = c \<and> list_all2 (\<lambda>s y. convert lib c s = Some y) xs ys)
           cs cs'"
  using assms(1)
proof (rule list.rel_mono_strong)
  fix a b assume "a \<in> set cs" "stage lib P L a b"
  with assms(2) show "(\<lambda>(c, xs) (c', ys). c' = c \<and> list_all2 (\<lambda>s y. convert lib c s = Some y) xs ys) a b"
    by (cases a; cases b) (auto simp: stage_def)
qed

lemma trim_short_neq:
  assumes "raw_table df0" "len df0 < 2"
  shows "and_then (iloc0 df0) (\<lambda>header.
           and_then (drop_index 0 (set_columns header df0)) (\<lambda>df1.
           and_then (drop_index (len df1) df1) k)) \<noteq> Inr y"
  using trim_short [OF assms, of k] by auto

lemma normalize_Inr:
  fixes lib :: "('f, 'd::linorder) pylib"
  assumes raw: "raw_table df0" and ok: "normalize lib df0 = Inr out"
  shows "\<exists>dcol dates.
           2 \<le> len df0 \<and>
           map snd (filter (\<lambda>(c, xs). c = ''Date'') (named_columns df0)) = [dcol] \<and>
           list_all2 (\<lambda>s d. to_date lib s = Some d) dcol dates \<and>
           index out = sort dates \<and>
           list_all2 (\<lambda>(c, xs) (c', ys). c' = c \<and>
                        list_all2 (\<lambda>s y. convert lib c s = Some y)
                          (map snd (sort_key fst (zip dates xs))) ys)
             (value_columns df0) (columns out)"
proof -
  have two: "2 \<le> len df0"
  proof (rule ccontr)
    assume "\<not> 2 \<le> len df0"
    then have "len df0 < 2" by simp
    from ok show False
      by (simp add: normalize_def trim_short_neq [OF raw \<open>len df0 < 2\<close>])
  qed
  define df2 :: "(string, nat, string) frame" where
    "df2 = \<lparr>index = [Suc 0..<len df0 - 1], columns = named_columns df0\<rparr>"
  from ok obtain dates df3 df4 df5 where
    dt: "to_datetime lib (getitem ''Date'' df2) = Inr dates"
    and p1: "percent_column lib ''Contango 2/1''
               (objects (sort_index (set_index ''Date'' dates df2))) = Inr df3"
    and p2: "percent_column lib ''Contango 7/4'' df3 = Inr df4"
    and p3: "percent_column lib ''Con 7/4 div 3'' df4 = Inr df5"
    and cl: "clean_columns lib (map fst (columns df5)) df5 = Inr out"
    unfolding normalize_def trim_raw [OF raw two] and_then_Inr df2_def named_columns_def
    by blast
  from dt obtain dcol where dcol: "getitem ''Date'' df2 = [dcol]"
    and parsed: "list_all2 (\<lambda>s d. to_date lib s = Some d) dcol dates"
    by (auto simp: to_datetime_Inr)
  define cs where "cs = map (\<lambda>(c, xs). (c, map snd (sort_key fst (zip dates xs)))) (value_columns df0)"
  let ?F = "objects (sort_index (set_index ''Date'' dates df2)) :: (string, 'd, 'f cell) frame"
  have F: "columns ?F = map (\<lambda>(c, xs). (c, map Text xs)) cs" "index ?F = sort dates"
    by (simp_all add: objects_def sort_index_def set_index_def df2_def cs_def value_columns_def
          comp_def split_def)
  have s0: "list_all2 (stage lib {} {}) cs (columns ?F)"
    unfolding F by (rule stage_objects)
  note s1 = stage_percent [OF p1 s0]
  have s2: "list_all2 (stage lib {''Contango 7/4'', ''Contango 2/1''} {}) cs (columns df4)"
    "index df4 = index df3"
    using stage_percent [OF p2 s1(1)] by simp_all
  have s3: "list_all2 (stage lib {''Con 7/4 div 3'', ''Contango 7/4'', ''Contango 2/1''} {}) cs (columns df5)"
    "index df5 = index df4"
    using stage_percent [OF p3 s2(1)] by simp_all
  have names: "{''Con 7/4 div 3'', ''Contango 7/4'', ''Contango 2/1''} = set percent_names"
    by (auto simp: percent_names_def)
  from stage_clean [OF cl, of "{}" cs] s3(1)
  have s4: "list_all2 (stage lib (set percent_names) (set (map fst (columns df5)))) cs (columns out)"
    and idx: "index out = index df5"
    by (simp_all add: names)
  from stage_names [OF s3(1)] have "set (map fst cs) \<subseteq> set (map fst (columns df5))" by simp
  from stage_all_visited [OF s4 this]
  have A: "list_all2 (\<lambda>(c, xs) (c', ys). c' = c \<and>
                        list_all2 (\<lambda>s y. convert lib c s = Some y)
                          (map snd (sort_key fst (zip dates xs))) ys)
             (value_columns df0) (columns out)"
    by (simp add: cs_def list_all2_map1 split_def)
  from idx s3(2) s2(2) s1(2) F(2) have B: "index out = sort dates" by simp
  from dcol have C: "map snd (filter (\<lambda>(c, xs). c = ''Date'') (named_columns df0)) = [dcol]"
    by (simp add: getitem_def df2_def)
  show ?thesis
    by (rule exI [of _ dcol], rule exI [of _ dates]) (simp only: two parsed A B C simp_thms)
qed

lemma data_rows_nth:
  assumes "0 < r" "r < length xs - 1"
  shows "data_rows xs ! (r - 1) = xs ! r" and "r - 1 < length (data_rows xs)"
proof -
  from assms have "r - 1 < length (tl xs) - 1" by simp
  then have "butlast (tl xs) ! (r - 1) = tl xs ! (r - 1)"
    by (simp add: nth_butlast)
  also from assms have "\<dots> = xs ! r" by (simp add: nth_tl)
  finally show "data_rows xs ! (r - 1) = xs ! r" by (simp add: data_rows_def)
  from assms show "r - 1 < length (data_rows xs)" by (simp add: data_rows_def)
qed

text \<open>
  Where a cell of a data row ends up: in the column of the same name, in the row
  labelled with the date of its raw row, converted.
\<close>

lemma cell_in_output:
  fixes lib :: "('f, 'd::linorder) pylib"
  assumes raw: "raw_table df0" and ok: "normalize lib df0 = Inr out"
    and col: "(l, xs) \<in> set (columns df0)" "hd xs \<noteq> ''Date''"
    and dat: "(m, ds) \<in> set (columns df0)" "hd ds = ''Date''"
    and row: "0 < r" "r < len df0 - 1"
  shows "\<exists>d y ys. to_date lib (ds ! r) = Some d \<and> convert lib (hd xs) (xs ! r) = Some y \<and>
           (hd xs, ys) \<in> set (columns out) \<and> (d, y) \<in> set (zip (index out) ys)"
proof -
  from normalize_Inr [OF raw ok] obtain dcol dates where
    sel: "map snd (filter (\<lambda>(c, xs). c = ''Date'') (named_columns df0)) = [dcol]"
    and parsed: "list_all2 (\<lambda>s d. to_date lib s = Some d) dcol dates"
    and idx: "index out = sort dates"
    and rel: "list_all2 (\<lambda>(c, xs) (c', ys). c' = c \<and>
                        list_all2 (\<lambda>s y. convert lib c s = Some y)
                          (map snd (sort_key fst (zip dates xs))) ys)
             (value_columns df0) (columns out)"
    by (elim exE conjE) (rule that)
  from raw col(1) dat(1) have lens: "length xs = len df0" "length ds = len df0"
    by (auto simp: raw_table_def list_all_iff)
  from dat have "data_rows ds \<in> set (map snd (filter (\<lambda>(c, xs). c = ''Date'') (named_columns df0)))"
    by (force simp: named_columns_def)
  with sel have dcol: "dcol = data_rows ds" by simp
  let ?k = "r - 1"
  from row lens have rx: "r < length xs - 1" "r < length ds - 1" by simp_all
  note k = data_rows_nth [OF row(1) rx(1)] data_rows_nth [OF row(1) rx(2)]
  from lens have same: "length (data_rows ds) = length (data_rows xs)"
    by (simp add: data_rows_def)
  from parsed have ld: "length dates = length (data_rows xs)"
    by (simp add: dcol same [symmetric] list_all2_lengthD)
  from k(4) have "?k < length dcol" by (simp only: dcol)
  from list_all2_nthD [OF parsed this] have d: "to_date lib (ds ! r) = Some (dates ! ?k)"
    by (simp only: dcol k(3))
  from col have "(hd xs, data_rows xs) \<in> set (value_columns df0)"
    by (force simp: value_columns_def named_columns_def)
  then obtain i where i: "i < length (value_columns df0)"
    "value_columns df0 ! i = (hd xs, data_rows xs)"
    by (auto simp: in_set_conv_nth)
  obtain c' ys where out: "columns out ! i = (c', ys)" by (cases "columns out ! i")
  from rel i out have iout: "i < length (columns out)" and c': "c' = hd xs"
    and conv: "list_all2 (\<lambda>s y. convert lib (hd xs) s = Some y)
                 (map snd (sort_key fst (zip dates (data_rows xs)))) ys"
    by (auto simp: list_all2_conv_all_nth)
  from iout out c' have mem: "(hd xs, ys) \<in> set (columns out)"
    by (auto simp: in_set_conv_nth)
  from in_zip_sorted [OF ld k(2)]
  have "(dates ! ?k, xs ! r) \<in> set (zip (sort dates) (map snd (sort_key fst (zip dates (data_rows xs)))))"
    by (simp only: k(1))
  from in_zip_related [OF this conv] obtain y where
    "(dates ! ?k, y) \<in> set (zip (sort dates) ys)" "convert lib (hd xs) (xs ! r) = Some y"
    by blast
  with d mem idx show ?thesis by auto
qed

subsection \<open>The running example\<close>

lemma page_raw: "raw_table page"
  by (simp add: raw_table_def page_def len_def)

lemma page_normalize: "normalize dec_lib page = Inr page_out"
  by (simp add: frame_defs dec_defs page_def page_out_def)

lemma page_twice_normalize: "normalize dec_lib page_twice = Inr page_twice_out"
  by (simp add: frame_defs dec_defs page_twice_def page_twice_out_def)

lemma page_dash_normalize: "normalize dec_lib page_dash = Inl ValueError"
  by (simp add: frame_defs dec_defs page_dash_def)

subsection \<open>Percentage columns\<close>

text \<open>
  Claim C1. In each of the three percentage columns, a cell of a data row whose raw text
  is a number \<open>X\<close> followed by \<^verbatim>\<open>%\<close> appears in the normalised table, in the row of its
  date, as the float \<open>X\<close> reads as multiplied by the float \<^verbatim>\<open>0.01\<close>.
\<close>

theorem percent_value:
  fixes lib :: "('f, 'd::linorder) pylib"
  assumes "raw_table df0" and "normalize lib df0 = Inr out"
    and "(l, xs) \<in> set (columns df0)" and "hd xs \<in> set percent_names"
    and "(m, ds) \<in> set (columns df0)" and "hd ds = ''Date''"
    and "0 < r" and "r < len df0 - 1"
    and "xs ! r = X @ ''%''" and "CHR ''%'' \<notin> set X" and "pyfloat lib X = Some x"
  shows "\<exists>d ys. to_date lib (ds ! r) = Some d \<and> (hd xs, ys) \<in> set (columns out) \<and>
           (d, Flt (fmul lib x (f001 lib))) \<in> set (zip (index out) ys)"
proof -
  from assms(4) have nd: "hd xs \<noteq> ''Date''" by (auto simp: percent_names_def)
  from cell_in_output [OF assms(1,2,3) nd assms(5,6,7,8)] obtain d y ys where
    d: "to_date lib (ds ! r) = Some d" and y: "convert lib (hd xs) (xs ! r) = Some y"
    and mem: "(hd xs, ys) \<in> set (columns out)" "(d, y) \<in> set (zip (index out) ys)"
    by blast
  have "filter (\<lambda>c. c \<noteq> CHR ''%'') (X @ ''%'') = X"
    using assms(10) by (auto simp: filter_id_conv)
  with y assms(4,9,11) have "y = Flt (fmul lib x (f001 lib))"
    by (simp add: convert_def percent_cell_def)
  with d mem show ?thesis by blast
qed

theorem percent_value_witness:
  "raw_table page \<and> normalize dec_lib page = Inr page_out \<and>
   pyfloat dec_lib ''10'' = Some (Dec 10) \<and>
   (\<exists>d ys. to_date dec_lib ''2020-01-02'' = Some d \<and>
      (''Contango 2/1'', ys) \<in> set (columns page_out) \<and>
      (d, Flt (Dec (1 / 10))) \<in> set (zip (index page_out) ys))"
proof -
  let ?xs = "[''Contango 2/1'', ''10%'', ''1%2%'', ''y'']"
  let ?ds = "[''Date'', ''2020-01-02'', ''2020-01-01'', ''Total'']"
  have h3: "(2, ?xs) \<in> set (columns page)" and h5: "(0, ?ds) \<in> set (columns page)"
    by (simp_all add: page_def)
  have h4: "hd ?xs \<in> set percent_names" by (simp add: percent_names_def)
  have h6: "hd ?ds = ''Date''" by simp
  have h7: "0 < (1::nat)" by simp
  have h8: "1 < len page - 1" by (simp add: len_def page_def)
  have h9: "?xs ! 1 = ''10'' @ ''%''" by simp
  have h10: "CHR ''%'' \<notin> set ''10''" by simp
  have h11: "pyfloat dec_lib ''10'' = Some (Dec 10)" by (simp add: dec_defs)
  from percent_value [OF page_raw page_normalize h3 h4 h5 h6 h7 h8 h9 h10 h11]
  show ?thesis
    using page_raw page_normalize h11 by (simp add: dec_lib_def)
qed

text \<open>
  Claim C10. In the three percentage columns every \<^verbatim>\<open>%\<close> of the cell text is removed
  before the text is read as a float, wherever it stands: the cell \<^verbatim>\<open>1%2%\<close> becomes the
  text \<^verbatim>\<open>12\<close>, is read as 12 and stored as 12 times \<^verbatim>\<open>0.01\<close>; it is not rejected.
\<close>

theorem percent_signs_all_removed:
  fixes lib :: "('f, 'd::linorder) pylib"
  assumes "raw_table df0" and "normalize lib df0 = Inr out"
    and "(l, xs) \<in> set (columns df0)" and "hd xs \<in> set percent_names"
    and "(m, ds) \<in> set (columns df0)" and "hd ds = ''Date''"
    and "0 < r" and "r < len df0 - 1"
  shows "\<exists>x d ys. pyfloat lib (filter (\<lambda>c. c \<noteq> CHR ''%'') (xs ! r)) = Some x \<and>
           to_date lib (ds ! r) = Some d \<and> (hd xs, ys) \<in> set (columns out) \<and>
           (d, Flt (fmul lib x (f001 lib))) \<in> set (zip (index out) ys)"
proof -
  from assms(4) have nd: "hd xs \<noteq> ''Date''" by (auto simp: percent_names_def)
  from cell_in_output [OF assms(1,2,3) nd assms(5,6,7,8)] obtain d y ys where
    d: "to_date lib (ds ! r) = Some d" and y: "convert lib (hd xs) (xs ! r) = Some y"
    and mem: "(hd xs, ys) \<in> set (columns out)" "(d, y) \<in> set (zip (index out) ys)"
    by blast
  from y assms(4) obtain x where
    "pyfloat lib (filter (\<lambda>c. c \<noteq> CHR ''%'') (xs ! r)) = Some x" "y = Flt (fmul lib x (f001 lib))"
    by (auto simp: convert_def percent_cell_def)
  with d mem show ?thesis by blast
qed

theorem percent_signs_all_removed_witness:
  "raw_table page \<and> normalize dec_lib page = Inr page_out \<and>
   filter (\<lambda>c. c \<noteq> CHR ''%'') ''1%2%'' = ''12'' \<and>
   (\<exists>d ys. to_date dec_lib ''2020-01-01'' = Some d \<and>
      (''Contango 2/1'', ys) \<in> set (columns page_out) \<and>
      (d, Flt (Dec (3 / 25))) \<in> set (zip (index page_out) ys))"
proof -
  let ?xs = "[''Contango 2/1'', ''10%'', ''1%2%'', ''y'']"
  let ?ds = "[''Date'', ''2020-01-02'', ''2020-01-01'', ''Total'']"
  have h3: "(2, ?xs) \<in> set (columns page)" and h5: "(0, ?ds) \<in> set (columns page)"
    by (simp_all add: page_def)
  have h4: "hd ?xs \<in> set percent_names" by (simp add: percent_names_def)
  have h6: "hd ?ds = ''Date''" by simp
  have h7: "0 < (2::nat)" by simp
  have h8: "2 < len page - 1" by (simp add: len_def page_def)
  have f: "pyfloat dec_lib ''12'' = Some (Dec 12)" by (simp add: dec_defs)
  from percent_signs_all_removed [OF page_raw page_normalize h3 h4 h5 h6 h7 h8]
  show ?thesis
    using page_raw page_normalize f by (simp add: dec_lib_def)
qed

subsection \<open>Rows\<close>

text \<open>
  Claim C3. On a raw table with at least two rows, labelled \<open>0\<close> to \<open>n - 1\<close>, lines 16 to
  18 succeed and drop exactly the first and the last row: the labels left are \<open>1\<close> to
  \<open>n - 2\<close> and every column keeps its cells between the first and the last. A
  normalised table therefore has \<open>n - 2\<close> rows, in the index and in every column.
\<close>

theorem rows_dropped:
  fixes lib :: "('f, 'd::linorder) pylib"
  assumes "raw_table df0" and "2 \<le> len df0"
  shows "and_then (iloc0 df0) (\<lambda>header.
           and_then (drop_index 0 (set_columns header df0)) (\<lambda>df1.
           drop_index (len df1) df1)) =
         Inr \<lparr>index = [1..<len df0 - 1],
              columns = map (\<lambda>(l, xs). (hd xs, butlast (tl xs))) (columns df0)\<rparr> \<and>
         (\<forall>out. normalize lib df0 = Inr out \<longrightarrow>
            len out = len df0 - 2 \<and>
            list_all (\<lambda>(c, ys). length ys = len df0 - 2) (columns out))"
proof (intro conjI allI impI)
  have "and_then (iloc0 df0) (\<lambda>header.
           and_then (drop_index 0 (set_columns header df0)) (\<lambda>df1.
           and_then (drop_index (len df1) df1) Inr)) =
         Inr \<lparr>index = [Suc 0..<len df0 - 1],
              columns = map (\<lambda>(l, xs). (hd xs, data_rows xs)) (columns df0)\<rparr>"
    by (rule trim_raw [OF assms])
  moreover have "and_then m Inr = m" for m :: "error + (string, nat, string) frame"
    by (cases m) simp_all
  ultimately show "and_then (iloc0 df0) (\<lambda>header.
           and_then (drop_index 0 (set_columns header df0)) (\<lambda>df1.
           drop_index (len df1) df1)) =
         Inr \<lparr>index = [1..<len df0 - 1],
              columns = map (\<lambda>(l, xs). (hd xs, butlast (tl xs))) (columns df0)\<rparr>"
    by (simp add: data_rows_def)
next
  fix out assume ok: "normalize lib df0 = Inr out"
  from normalize_Inr [OF assms(1) ok] obtain dcol dates where
    sel: "map snd (filter (\<lambda>(c, xs). c = ''Date'') (named_columns df0)) = [dcol]"
    and parsed: "list_all2 (\<lambda>s d. to_date lib s = Some d) dcol dates"
    and idx: "index out = sort dates"
    and rel: "list_all2 (\<lambda>(c, xs) (c', ys). c' = c \<and>
                        list_all2 (\<lambda>s y. convert lib c s = Some y)
                          (map snd (sort_key fst (zip dates xs))) ys)
             (value_columns df0) (columns out)"
    by (elim exE conjE) (rule that)
  have lens: "length xs = len df0 - 2" if "(c, xs) \<in> set (named_columns df0)" for c xs
    using that assms(1) by (auto simp: named_columns_def raw_table_def list_all_iff data_rows_def)
  have "dcol \<in> set (map snd (filter (\<lambda>(c, xs). c = ''Date'') (named_columns df0)))"
    by (simp add: sel)
  then have "length dcol = len df0 - 2" using lens by auto
  with parsed have ld: "length dates = len df0 - 2" by (simp add: list_all2_lengthD)
  with idx show "len out = len df0 - 2" by (simp add: len_def)
  show "list_all (\<lambda>(c, ys). length ys = len df0 - 2) (columns out)"
    unfolding list_all_iff
  proof
    fix b assume "b \<in> set (columns out)"
    then obtain i where i: "i < length (columns out)" "columns out ! i = b"
      by (auto simp: in_set_conv_nth)
    obtain c xs where a: "value_columns df0 ! i = (c, xs)" by (cases "value_columns df0 ! i")
    obtain c' ys where b: "b = (c', ys)" by (cases b)
    from rel i have iv: "i < length (value_columns df0)" by (simp add: list_all2_lengthD)
    then have "(c, xs) \<in> set (named_columns df0)"
      using a by (auto simp: value_columns_def dest!: nth_mem)
    then have lx: "length xs = len df0 - 2" by (rule lens)
    from rel i a b iv have "list_all2 (\<lambda>s y. convert lib c s = Some y)
                          (map snd (sort_key fst (zip dates xs))) ys"
      by (auto simp: list_all2_conv_all_nth)
    then have "length ys = length (map snd (sort_key fst (zip dates xs)))"
      by (rule list_all2_lengthD [symmetric])
    with ld lx show "case b of (c, ys) \<Rightarrow> length ys = len df0 - 2" by (simp add: b)
  qed
qed

theorem rows_dropped_witness:
  "raw_table page \<and> 2 \<le> len page \<and> len page_out = len page - 2 \<and>
   list_all (\<lambda>(c, ys). length ys = len page - 2) (columns page_out) \<and>
   and_then (iloc0 page) (\<lambda>header.
           and_then (drop_index 0 (set_columns header page)) (\<lambda>df1.
           drop_index (len df1) df1)) =
         Inr \<lparr>index = [1, 2],
              columns = [(''Date'', [''2020-01-02'', ''2020-01-01'']),
                         (''F1'', [''14.5'', ''-'']),
                         (''Contango 2/1'', [''10%'', ''1%2%'']),
                         (''Contango 7/4'', [''20%'', ''-5.5%'']),
                         (''Con 7/4 div 3'', [''30%'', ''0.5%''])]\<rparr>"
proof -
  have two: "2 \<le> len page" by (simp add: len_def page_def)
  from rows_dropped [OF page_raw two, of dec_lib] page_normalize
  have "len page_out = len page - 2 \<and>
        list_all (\<lambda>(c, ys). length ys = len page - 2) (columns page_out)"
    by blast
  moreover from rows_dropped [OF page_raw two, of dec_lib]
  have "and_then (iloc0 page) (\<lambda>header.
           and_then (drop_index 0 (set_columns header page)) (\<lambda>df1.
           drop_index (len df1) df1)) =
         Inr \<lparr>index = [1..<len page - 1],
              columns = map (\<lambda>(l, xs). (hd xs, butlast (tl xs))) (columns page)\<rparr>"
    by blast
  then have "and_then (iloc0 page) (\<lambda>header.
           and_then (drop_index 0 (set_columns header page)) (\<lambda>df1.
           drop_index (len df1) df1)) =
         Inr \<lparr>index = [1, 2],
              columns = [(''Date'', [''2020-01-02'', ''2020-01-01'']),
                         (''F1'', [''14.5'', ''-'']),
                         (''Contango 2/1'', [''10%'', ''1%2%'']),
                         (''Contango 7/4'', [''20%'', ''-5.5%'']),
                         (''Con 7/4 div 3'', [''30%'', ''0.5%''])]\<rparr>"
    by (simp add: page_def len_def upt_rec)
  ultimately show ?thesis using page_raw two by blast
qed

subsection \<open>The date index\<close>

text \<open>
  Claim C4, as the code has it. The index of a normalised table holds the parsed dates
  of the data rows, each as often as it occurs, in ascending order. Nothing removes a
  repeated date: the index is strictly ascending exactly when the dates of the data rows
  are pairwise distinct.
\<close>

theorem index_ascending:
  fixes lib :: "('f, 'd::linorder) pylib"
  assumes "raw_table df0" and "normalize lib df0 = Inr out"
    and "(m, ds) \<in> set (columns df0)" and "hd ds = ''Date''"
  shows "\<exists>dates. list_all2 (\<lambda>s d. to_date lib s = Some d) (data_rows ds) dates \<and>
           index out = sort dates \<and> sorted (index out) \<and>
           (sorted_wrt (<) (index out) \<longleftrightarrow> distinct dates)"
proof -
  from normalize_Inr [OF assms(1,2)] obtain dcol dates where
    sel: "map snd (filter (\<lambda>(c, xs). c = ''Date'') (named_columns df0)) = [dcol]"
    and parsed: "list_all2 (\<lambda>s d. to_date lib s = Some d) dcol dates"
    and idx: "index out = sort dates"
    by (elim exE conjE) (rule that)
  from assms(3,4)
  have "data_rows ds \<in> set (map snd (filter (\<lambda>(c, xs). c = ''Date'') (named_columns df0)))"
    by (force simp: named_columns_def)
  with sel have "dcol = data_rows ds" by simp
  with parsed have "list_all2 (\<lambda>s d. to_date lib s = Some d) (data_rows ds) dates" by simp
  moreover have "index out = sort dates" "sorted (index out)"
    by (simp_all add: idx)
  moreover have "sorted_wrt (<) (index out) \<longleftrightarrow> distinct dates"
    by (simp add: idx strict_sorted_iff)
  ultimately show ?thesis by blast
qed

theorem index_ascending_witness:
  "raw_table page \<and> normalize dec_lib page = Inr page_out \<and>
   (\<exists>dates. list_all2 (\<lambda>s d. to_date dec_lib s = Some d) [''2020-01-02'', ''2020-01-01''] dates \<and>
      index page_out = sort dates \<and> sorted (index page_out) \<and>
      (sorted_wrt (<) (index page_out) \<longleftrightarrow> distinct dates))"
proof -
  let ?ds = "[''Date'', ''2020-01-02'', ''2020-01-01'', ''Total'']"
  have h3: "(0, ?ds) \<in> set (columns page)" by (simp add: page_def)
  have h4: "hd ?ds = ''Date''" by simp
  from index_ascending [OF page_raw page_normalize h3 h4]
  show ?thesis using page_raw page_normalize by (simp add: data_rows_def)
qed

text \<open>
  Claim C4 as stated fails: both data rows of \<open>page_twice\<close> carry the date
  2020-01-02, both parse, and the index keeps both.
\<close>

theorem index_not_strict:
  "raw_table page_twice \<and> to_date dec_lib ''2020-01-02'' = Some 20200102 \<and>
   normalize dec_lib page_twice = Inr page_twice_out \<and>
   index page_twice_out = [20200102, 20200102] \<and>
   \<not> sorted_wrt (<) (index page_twice_out) \<and> \<not> distinct (index page_twice_out)"
  using page_twice_normalize
  by (simp add: raw_table_def page_twice_def len_def page_twice_out_def dec_defs)

subsection \<open>The placeholder\<close>

text \<open>
  In a column that is not a percentage column the cell \<^verbatim>\<open>-\<close> of a data row becomes NaN
  in the row of its date.
\<close>

lemma dash_in_plain_column:
  fixes lib :: "('f, 'd::linorder) pylib"
  assumes "raw_table df0" and "normalize lib df0 = Inr out"
    and "(l, xs) \<in> set (columns df0)" and "hd xs \<notin> set percent_names" and "hd xs \<noteq> ''Date''"
    and "(m, ds) \<in> set (columns df0)" and "hd ds = ''Date''"
    and "0 < r" and "r < len df0 - 1" and "xs ! r = ''-''"
  shows "\<exists>d ys. to_date lib (ds ! r) = Some d \<and> (hd xs, ys) \<in> set (columns out) \<and>
           (d, Flt (fnan lib)) \<in> set (zip (index out) ys)"
proof -
  from cell_in_output [OF assms(1,2,3,5,6,7,8,9)] obtain d y ys where
    d: "to_date lib (ds ! r) = Some d" and y: "convert lib (hd xs) (xs ! r) = Some y"
    and mem: "(hd xs, ys) \<in> set (columns out)" "(d, y) \<in> set (zip (index out) ys)"
    by blast
  from y assms(4,10) have "y = Flt (fnan lib)" by (simp add: convert_def plain_cell_def)
  with d mem show ?thesis by blast
qed

text \<open>
  In a percentage column the same cell ends the normalisation with an exception, as soon
  as \<^verbatim>\<open>float('-')\<close> raises, which it does in Python: lines 21 to 23 read the column as
  floats before the loop of lines 24 to 26 replaces the placeholder.
\<close>

lemma dash_in_percent_column:
  fixes lib :: "('f, 'd::linorder) pylib"
  assumes "raw_table df0"
    and "(l, xs) \<in> set (columns df0)" and "hd xs \<in> set percent_names"
    and "(m, ds) \<in> set (columns df0)" and "hd ds = ''Date''"
    and "0 < r" and "r < len df0 - 1" and "xs ! r = ''-''" and "pyfloat lib ''-'' = None"
  shows "\<exists>e. normalize lib df0 = Inl e"
proof (cases "normalize lib df0")
  case (Inl e)
  then show ?thesis by blast
next
  case (Inr out)
  from assms(3) have nd: "hd xs \<noteq> ''Date''" by (auto simp: percent_names_def)
  from cell_in_output [OF assms(1) Inr assms(2) nd assms(4,5,6,7)] obtain y where
    "convert lib (hd xs) (xs ! r) = Some y" by blast
  with assms(3,8,9) show ?thesis by (simp add: convert_def percent_cell_def)
qed

text \<open>
  Claim C2 at a concrete table: \<open>page_dash\<close> has \<^verbatim>\<open>-\<close> in the column
  \<^verbatim>\<open>Contango 2/1\<close> and its normalisation raises ValueError, while the same cell in the
  column \<^verbatim>\<open>F1\<close> of \<open>page\<close> becomes NaN.
\<close>

theorem placeholder_raises_in_percent_column:
  "raw_table page_dash \<and> normalize dec_lib page_dash = Inl ValueError \<and>
   normalize dec_lib page = Inr page_out \<and>
   (''F1'', [Flt NaN, Flt (Dec (29 / 2))]) \<in> set (columns page_out)"
  using page_dash_normalize page_normalize
  by (simp add: raw_table_def page_dash_def len_def page_out_def)

subsection \<open>The function and its effects\<close>

lemma run_cases:
  "get_and_save_vix_contago lib dest w =
     (case read_html w of
        Inl e \<Rightarrow> (False, print (Fail e) (print Downloading w))
      | Inr [] \<Rightarrow> (False, print (Fail IndexError) (print Downloading w))
      | Inr (df0 # others) \<Rightarrow>
          (case normalize lib df0 of
             Inl e \<Rightarrow> (False, print (Fail e) (print Downloading w))
           | Inr df \<Rightarrow>
               (case to_csv w df (csv_path dest) (disk w) of
                  (fs, Some e) \<Rightarrow>
                    (False, print (Fail e) (print (Saving (csv_path dest)) (print Downloading w)\<lparr>disk := fs\<rparr>))
                | (fs, None) \<Rightarrow>
                    (True, print Saved (print (Saving (csv_path dest)) (print Downloading w)\<lparr>disk := fs\<rparr>)))))"
  by (simp add: get_and_save_vix_contago_def handler_def print_def Let_def
        split: sum.splits list.splits prod.splits option.splits)

lemma disk_print: "disk (print m w) = disk w"
  by (simp add: print_def)

text \<open>
  Claim C5. The file system after a run is the one before it, unless the fetch and the
  whole normalisation succeeded; then it is what the CSV writer makes of the file system
  when handed the fully normalised table. The writer is called at no other point.
\<close>

theorem all_or_nothing:
  "disk (snd (get_and_save_vix_contago lib dest w)) =
     (case read_html w of
        Inr (df0 # others) \<Rightarrow>
          (case normalize lib df0 of
             Inr df \<Rightarrow> fst (to_csv w df (csv_path dest) (disk w))
           | Inl e \<Rightarrow> disk w)
      | _ \<Rightarrow> disk w)"
  by (simp add: run_cases disk_print split: sum.splits list.splits prod.splits option.splits)

theorem all_or_nothing_witness:
  "disk (snd (get_and_save_vix_contago dec_lib ''out'' online)) = [''out/vix_contago.csv'' \<mapsto> page_out] \<and>
   disk (snd (get_and_save_vix_contago dec_lib ''out'' (online\<lparr>read_html := Inl URLError\<rparr>))) = Map.empty \<and>
   disk (snd (get_and_save_vix_contago dec_lib ''out'' (online\<lparr>read_html := Inr [page_dash]\<rparr>))) = Map.empty"
  using all_or_nothing [of dec_lib "''out''" online]
    all_or_nothing [of dec_lib "''out''" "online\<lparr>read_html := Inl URLError\<rparr>"]
    all_or_nothing [of dec_lib "''out''" "online\<lparr>read_html := Inr [page_dash]\<rparr>"]
  by (simp add: online_def page_normalize page_dash_normalize store_def csv_path_def)

text \<open>
  Claim C6. The function returns True exactly when the fetch gave a table, its
  normalisation succeeded and the writer raised nothing; every exception ends in the
  result False, none leaves the function. The script exits with status 0 on True and
  with status 1 on False.
\<close>

theorem result_and_exit_status:
  "(fst (get_and_save_vix_contago lib dest w) \<longleftrightarrow>
      (\<exists>df0 others df. read_html w = Inr (df0 # others) \<and> normalize lib df0 = Inr df \<and>
         snd (to_csv w df (csv_path dest) (disk w)) = None)) \<and>
   fst (main lib (script # dest # args) w) =
      (if fst (get_and_save_vix_contago lib dest w) then 0 else 1) \<and>
   snd (main lib (script # dest # args) w) = snd (get_and_save_vix_contago lib dest w)"
proof (intro conjI)
  show "fst (get_and_save_vix_contago lib dest w) \<longleftrightarrow>
      (\<exists>df0 others df. read_html w = Inr (df0 # others) \<and> normalize lib df0 = Inr df \<and>
         snd (to_csv w df (csv_path dest) (disk w)) = None)"
    by (auto simp: run_cases split: sum.splits list.splits prod.splits option.splits)
  show "fst (main lib (script # dest # args) w) =
      (if fst (get_and_save_vix_contago lib dest w) then 0 else 1)"
    by (cases "get_and_save_vix_contago lib dest w") (auto simp: main_def split: bool.splits)
  show "snd (main lib (script # dest # args) w) = snd (get_and_save_vix_contago lib dest w)"
    by (cases "get_and_save_vix_contago lib dest w") (auto simp: main_def split: bool.splits)
qed

theorem result_and_exit_status_witness:
  "fst (get_and_save_vix_contago dec_lib ''out'' online) \<and>
   fst (main dec_lib [''process_contango.py'', ''out''] online) = 0 \<and>
   \<not> fst (get_and_save_vix_contago dec_lib ''out'' (online\<lparr>read_html := Inl URLError\<rparr>)) \<and>
   fst (main dec_lib [''process_contango.py'', ''out''] (online\<lparr>read_html := Inl URLError\<rparr>)) = 1 \<and>
   \<not> fst (get_and_save_vix_contago dec_lib ''out'' (online\<lparr>read_html := Inr [page_dash]\<rparr>)) \<and>
   fst (main dec_lib [''process_contango.py'', ''out''] (online\<lparr>read_html := Inr [page_dash]\<rparr>)) = 1 \<and>
   \<not> fst (get_and_save_vix_contago dec_lib ''out'' (online\<lparr>to_csv := refuse\<rparr>)) \<and>
   fst (main dec_lib [''process_contango.py'', ''out''] (online\<lparr>to_csv := refuse\<rparr>)) = 1"
  using result_and_exit_status [of dec_lib "''out''" online "''process_contango.py''" "[]"]
    result_and_exit_status [of dec_lib "''out''" "online\<lparr>read_html := Inl URLError\<rparr>" "''process_contango.py''" "[]"]
    result_and_exit_status [of dec_lib "''out''" "online\<lparr>read_html := Inr [page_dash]\<rparr>" "''process_contango.py''" "[]"]
    result_and_exit_status [of dec_lib "''out''" "online\<lparr>to_csv := refuse\<rparr>" "''process_contango.py''" "[]"]
  by (simp add: online_def page_normalize page_dash_normalize store_def refuse_def)

text \<open>
  Claim C7. Line 19 parses the \<^verbatim>\<open>Date\<close> cells of the data rows (the repeated header and
  the footer are gone by then). If one of them does not parse, the normalisation raises,
  the function returns False and the file system is as before: no row is skipped and no
  value stands in for the date.
\<close>

theorem bad_date_fails:
  fixes lib :: "('f, 'd::linorder) pylib"
  assumes "raw_table df0" and "read_html w = Inr (df0 # others)"
    and "(m, ds) \<in> set (columns df0)" and "hd ds = ''Date''"
    and "0 < r" and "r < len df0 - 1" and "to_date lib (ds ! r) = None"
  shows "(\<exists>e. normalize lib df0 = Inl e) \<and>
         \<not> fst (get_and_save_vix_contago lib dest w) \<and>
         disk (snd (get_and_save_vix_contago lib dest w)) = disk w"
proof -
  have fails: "\<exists>e. normalize lib df0 = Inl e"
  proof (cases "normalize lib df0")
    case (Inl e)
    then show ?thesis by blast
  next
    case (Inr out)
    from normalize_Inr [OF assms(1) Inr] obtain dcol dates where
      sel: "map snd (filter (\<lambda>(c, xs). c = ''Date'') (named_columns df0)) = [dcol]"
      and parsed: "list_all2 (\<lambda>s d. to_date lib s = Some d) dcol dates"
      by (elim exE conjE) (rule that)
    from assms(3,4)
    have "data_rows ds \<in> set (map snd (filter (\<lambda>(c, xs). c = ''Date'') (named_columns df0)))"
      by (force simp: named_columns_def)
    with sel have dcol: "dcol = data_rows ds" by simp
    from assms(1,3) have "length ds = len df0" by (auto simp: raw_table_def list_all_iff)
    with assms(6) have "r < length ds - 1" by simp
    note k = data_rows_nth [OF assms(5) this]
    from k(2) have "r - 1 < length dcol" by (simp only: dcol)
    from list_all2_nthD [OF parsed this] have "to_date lib (ds ! r) = Some (dates ! (r - 1))"
      by (simp only: dcol k(1))
    with assms(7) show ?thesis by simp
  qed
  then obtain e where "normalize lib df0 = Inl e" ..
  with assms(2) fails show ?thesis
    by (simp add: run_cases disk_print)
qed

theorem bad_date_fails_witness:
  "raw_table page_bad_date \<and> to_date dec_lib ''not a date'' = None \<and>
   (\<exists>e. normalize dec_lib page_bad_date = Inl e) \<and>
   \<not> fst (get_and_save_vix_contago dec_lib ''out'' (online\<lparr>read_html := Inr [page_bad_date]\<rparr>)) \<and>
   disk (snd (get_and_save_vix_contago dec_lib ''out'' (online\<lparr>read_html := Inr [page_bad_date]\<rparr>))) =
     Map.empty"
proof -
  let ?ds = "[''Date'', ''not a date'', ''2020-01-01'', ''Total'']"
  let ?w = "online\<lparr>read_html := Inr [page_bad_date]\<rparr>"
  have h1: "raw_table page_bad_date" by (simp add: raw_table_def page_bad_date_def len_def)
  have h2: "read_html ?w = Inr (page_bad_date # [])" by simp
  have h3: "(0, ?ds) \<in> set (columns page_bad_date)" by (simp add: page_bad_date_def)
  have h4: "hd ?ds = ''Date''" by simp
  have h5: "0 < (1::nat)" by simp
  have h6: "1 < len page_bad_date - 1" by (simp add: len_def page_bad_date_def)
  have h7: "to_date dec_lib (?ds ! 1) = None" by (simp add: dec_defs)
  from bad_date_fails [OF h1 h2 h3 h4 h5 h6 h7, of "''out''"] h1 h7
  show ?thesis by (simp add: online_def)
qed

text \<open>
  Claim C9. The normalisation is a function of the raw table, and the table the run
  hands to the CSV writer is a function of what the fetch returned: two runs that fetch
  the same tables, in whatever file system, with whatever output so far and to whatever
  folder, either both write nothing or both hand the same table to the writer.
\<close>

theorem written_table_depends_on_fetch_only:
  fixes lib :: "('f, 'd::linorder) pylib"
    and w1 w2 :: "('l, 'f, 'd, 'fs) world"
  assumes "read_html w1 = read_html w2"
  shows "\<exists>written.
           disk (snd (get_and_save_vix_contago lib dest1 w1)) =
             (case written of None \<Rightarrow> disk w1
              | Some df \<Rightarrow> fst (to_csv w1 df (csv_path dest1) (disk w1))) \<and>
           disk (snd (get_and_save_vix_contago lib dest2 w2)) =
             (case written of None \<Rightarrow> disk w2
              | Some df \<Rightarrow> fst (to_csv w2 df (csv_path dest2) (disk w2))) \<and>
           written = (case read_html w1 of
                        Inr (df0 # others) \<Rightarrow>
                          (case normalize lib df0 of Inr df \<Rightarrow> Some df | Inl e \<Rightarrow> None)
                      | _ \<Rightarrow> None)"
proof -
  let ?written = "case read_html w1 of
                    Inr (df0 # others) \<Rightarrow>
                      (case normalize lib df0 of Inr df \<Rightarrow> Some df | Inl e \<Rightarrow> None)
                  | _ \<Rightarrow> None"
  have "disk (snd (get_and_save_vix_contago lib dest1 w1)) =
             (case ?written of None \<Rightarrow> disk w1
              | Some df \<Rightarrow> fst (to_csv w1 df (csv_path dest1) (disk w1)))"
    by (simp add: run_cases disk_print split: sum.splits list.splits prod.splits option.splits)
  moreover have "disk (snd (get_and_save_vix_contago lib dest2 w2)) =
             (case ?written of None \<Rightarrow> disk w2
              | Some df \<Rightarrow> fst (to_csv w2 df (csv_path dest2) (disk w2)))"
    unfolding assms
    by (simp add: run_cases disk_print split: sum.splits list.splits prod.splits option.splits)
  ultimately show ?thesis by blast
qed

theorem written_table_depends_on_fetch_only_witness:
  "read_html online = read_html (online\<lparr>disk := [''old/vix_contago.csv'' \<mapsto> page_twice_out], stdout := [Saved]\<rparr>) \<and>
   disk (snd (get_and_save_vix_contago dec_lib ''out'' online)) ''out/vix_contago.csv'' = Some page_out \<and>
   disk (snd (get_and_save_vix_contago dec_lib ''old''
           (online\<lparr>disk := [''old/vix_contago.csv'' \<mapsto> page_twice_out], stdout := [Saved]\<rparr>)))
     ''old/vix_contago.csv'' = Some page_out"
proof -
  let ?w2 = "online\<lparr>disk := [''old/vix_contago.csv'' \<mapsto> page_twice_out], stdout := [Saved]\<rparr>"
  have h: "read_html online = read_html ?w2" by simp
  from written_table_depends_on_fetch_only [OF h, of dec_lib "''out''" "''old''"]
  show ?thesis
    by (auto simp: online_def page_normalize store_def csv_path_def)
qed

end
